theory Spec2Isabelle
  imports Complex_Main "HOL-Library.Word"
begin

section \<open>Strings and numbers of the host language\<close>

text \<open>
  A string of the source is a sequence of UTF-16 code units. ASCII literals of the
  source (\<^verbatim>\<open>'en-US'\<close>) are written \<open>js ''en-US''\<close>. A number of the source is
  modelled as a real; the handlers only store and copy numbers, they never compute
  with them.
\<close>

type_synonym jsstring = "16 word list"

definition js :: "string \<Rightarrow> jsstring" where
  "js cs = map (\<lambda>c. word_of_nat (of_char c)) cs"

text \<open>
  \<^verbatim>\<open>String.prototype.trim\<close> removes leading and trailing white space and line
  terminators: TAB, LF, VT, FF, CR, SP, NBSP, U+1680, U+2000..U+200A, U+2028, U+2029,
  U+202F, U+205F, U+3000 and U+FEFF.
\<close>

definition isWhiteSpace :: "16 word \<Rightarrow> bool" where
  "isWhiteSpace c =
     (c = 0x09 \<or> c = 0x0A \<or> c = 0x0B \<or> c = 0x0C \<or> c = 0x0D \<or> c = 0x20 \<or> c = 0xA0 \<or>
      c = 0x1680 \<or> (0x2000 \<le> c \<and> c \<le> 0x200A) \<or> c = 0x2028 \<or> c = 0x2029 \<or>
      c = 0x202F \<or> c = 0x205F \<or> c = 0x3000 \<or> c = 0xFEFF)"

definition trim :: "jsstring \<Rightarrow> jsstring" where
  "trim t = rev (dropWhile isWhiteSpace (rev (dropWhile isWhiteSpace t)))"

section \<open>The application state\<close>

text \<open>The fields of \<^verbatim>\<open>SpeechSynthesisVoice\<close> that the source reads.\<close>

record voice =
  voiceURI :: jsstring
  name :: jsstring
  lang :: jsstring

text \<open>
  The seven \<^verbatim>\<open>useState\<close> cells of \<^verbatim>\<open>App\<close>. The cell \<^verbatim>\<open>text\<close> is named
  \<open>text'\<close> here.
\<close>

record app_state =
  text' :: jsstring
  voices :: "voice list"
  selectedVoiceURI :: jsstring
  pitch :: real
  rate :: real
  isSpeaking :: bool
  isLoadingVoices :: bool

text \<open>
  A \<^verbatim>\<open>SpeechSynthesisUtterance\<close>: the fields the source sets, and its three event
  handlers, each a closure that updates the application state.
\<close>

record utterance =
  u_text :: jsstring
  u_voice :: "voice option"
  u_pitch :: real
  u_rate :: real
  onstart :: "app_state \<Rightarrow> app_state"
  onend :: "app_state \<Rightarrow> app_state"
  onerror :: "app_state \<Rightarrow> app_state"

text \<open>\<^verbatim>\<open>new SpeechSynthesisUtterance(text)\<close>: no voice, pitch 1, rate 1, no handlers.\<close>

definition new_utterance :: "jsstring \<Rightarrow> utterance" where
  "new_utterance t =
     \<lparr>u_text = t, u_voice = None, u_pitch = 1, u_rate = 1,
      onstart = (\<lambda>s. s), onend = (\<lambda>s. s), onerror = (\<lambda>s. s)\<rparr>"

text \<open>The calls the application makes on \<^verbatim>\<open>window.speechSynthesis\<close>.\<close>

datatype command = Cancel | Speak utterance

text \<open>
  The application together with the host engine as the application sees it: the
  commands issued so far, oldest first, and whether \<^verbatim>\<open>loadVoices\<close> is attached as
  \<^verbatim>\<open>onvoiceschanged\<close>.
\<close>

record world =
  app :: app_state
  issued :: "command list"
  onvoiceschanged :: bool

definition initial :: world where
  "initial =
     \<lparr>app = \<lparr>text' = [], voices = [], selectedVoiceURI = [], pitch = 1, rate = 1,
             isSpeaking = False, isLoadingVoices = True\<rparr>,
      issued = [], onvoiceschanged = False\<rparr>"

section \<open>The voice catalog loader\<close>

text \<open>
  \<^verbatim>\<open>loadVoices\<close>; its argument is what \<^verbatim>\<open>getVoices()\<close> returns at the call.
  \<^verbatim>\<open>find(...) || availableVoices[0]\<close> is the found voice, else the first one.
\<close>

definition loadVoices :: "voice list \<Rightarrow> world \<Rightarrow> world" where
  "loadVoices availableVoices w =
     (if 0 < length availableVoices then
        let defaultVoice =
              (case find (\<lambda>v. lang v = js ''en-US'') availableVoices of
                 Some v \<Rightarrow> v
               | None \<Rightarrow> availableVoices ! 0)
        in w\<lparr>app := (app w)\<lparr>voices := availableVoices,
                              selectedVoiceURI := voiceURI defaultVoice,
                              isLoadingVoices := False\<rparr>,
              onvoiceschanged := False\<rparr>
      else w)"

text \<open>The mount effect: attach the handler, then make the initial attempt.\<close>

definition mount :: "voice list \<Rightarrow> world" where
  "mount availableVoices = loadVoices availableVoices (initial\<lparr>onvoiceschanged := True\<rparr>)"

text \<open>The platform fires \<^verbatim>\<open>voiceschanged\<close>: the attached handler runs, if any.\<close>

definition voiceschanged :: "voice list \<Rightarrow> world \<Rightarrow> world" where
  "voiceschanged availableVoices w =
     (if onvoiceschanged w then loadVoices availableVoices w else w)"

section \<open>The utterance controller\<close>

definition handleSpeak :: "world \<Rightarrow> world" where
  "handleSpeak w =
     (let s = app w in
      if trim (text' s) = [] \<or> isSpeaking s then w
      else
        let utterance = new_utterance (text' s);
            selectedVoice = find (\<lambda>v. voiceURI v = selectedVoiceURI s) (voices s);
            utterance = (case selectedVoice of
                           Some v \<Rightarrow> utterance\<lparr>u_voice := Some v\<rparr>
                         | None \<Rightarrow> utterance);
            utterance = utterance\<lparr>u_pitch := pitch s, u_rate := rate s\<rparr>;
            utterance = utterance\<lparr>onstart := (\<lambda>s. s\<lparr>isSpeaking := True\<rparr>),
                                  onend := (\<lambda>s. s\<lparr>isSpeaking := False\<rparr>),
                                  onerror := (\<lambda>s. s\<lparr>isSpeaking := False\<rparr>)\<rparr>
        in w\<lparr>issued := issued w @ [Cancel, Speak utterance]\<rparr>)"

definition handleStop :: "world \<Rightarrow> world" where
  "handleStop w = w\<lparr>issued := issued w @ [Cancel], app := (app w)\<lparr>isSpeaking := False\<rparr>\<rparr>"

text \<open>The change handlers of the text area, the voice selector and the two sliders.\<close>

definition setText :: "jsstring \<Rightarrow> world \<Rightarrow> world" where
  "setText t w = w\<lparr>app := (app w)\<lparr>text' := t\<rparr>\<rparr>"

definition setSelectedVoiceURI :: "jsstring \<Rightarrow> world \<Rightarrow> world" where
  "setSelectedVoiceURI uri w = w\<lparr>app := (app w)\<lparr>selectedVoiceURI := uri\<rparr>\<rparr>"

definition setPitch :: "real \<Rightarrow> world \<Rightarrow> world" where
  "setPitch x w = w\<lparr>app := (app w)\<lparr>pitch := x\<rparr>\<rparr>"

definition setRate :: "real \<Rightarrow> world \<Rightarrow> world" where
  "setRate x w = w\<lparr>app := (app w)\<lparr>rate := x\<rparr>\<rparr>"

section \<open>Events of a session\<close>

text \<open>The utterances submitted so far, oldest first.\<close>

fun submitted :: "command list \<Rightarrow> utterance list" where
  "submitted [] = []"
| "submitted (Cancel # cs) = submitted cs"
| "submitted (Speak u # cs) = u # submitted cs"

datatype callback = OnStart | OnEnd | OnError

fun handler :: "callback \<Rightarrow> utterance \<Rightarrow> app_state \<Rightarrow> app_state" where
  "handler OnStart u = onstart u"
| "handler OnEnd u = onend u"
| "handler OnError u = onerror u"

text \<open>
  The host engine delivers a callback of the \<open>n\<close>-th submitted utterance; it has
  callbacks only for utterances it was given.
\<close>

definition deliver :: "callback \<Rightarrow> nat \<Rightarrow> world \<Rightarrow> world" where
  "deliver cb n w =
     (if n < length (submitted (issued w))
      then w\<lparr>app := handler cb (submitted (issued w) ! n) (app w)\<rparr>
      else w)"

datatype action =
    SetText jsstring
  | SelectVoice jsstring
  | SetPitch real
  | SetRate real
  | ClickSpeak
  | ClickStop
  | VoicesChanged "voice list"
  | Deliver callback nat

fun step :: "action \<Rightarrow> world \<Rightarrow> world" where
  "step (SetText t) w = setText t w"
| "step (SelectVoice uri) w = setSelectedVoiceURI uri w"
| "step (SetPitch x) w = setPitch x w"
| "step (SetRate x) w = setRate x w"
| "step ClickSpeak w = handleSpeak w"
| "step ClickStop w = handleStop w"
| "step (VoicesChanged vs) w = voiceschanged vs w"
| "step (Deliver cb n) w = deliver cb n w"

fun run :: "action list \<Rightarrow> world \<Rightarrow> world" where
  "run [] w = w"
| "run (a # as) w = run as (step a w)"

text \<open>
  The three handlers \<^verbatim>\<open>handleSpeak\<close> attaches to every utterance it submits.
\<close>

definition std_handlers :: "utterance \<Rightarrow> bool" where
  "std_handlers u \<longleftrightarrow>
     onstart u = (\<lambda>s. s\<lparr>isSpeaking := True\<rparr>) \<and>
     onend u = (\<lambda>s. s\<lparr>isSpeaking := False\<rparr>) \<and>
     onerror u = (\<lambda>s. s\<lparr>isSpeaking := False\<rparr>)"



subsection \<open>The scenario catalog\<close>

definition v1 :: voice where
  "v1 = \<lparr>voiceURI = js ''v1'', name = js ''Voice 1'', lang = js ''en-US''\<rparr>"

definition v2 :: voice where
  "v2 = \<lparr>voiceURI = js ''v2'', name = js ''Voice 2'', lang = js ''fr-FR''\<rparr>"

text \<open>
  Sessions over that catalog: the text "hello" entered and the pitch moved to 1.5; the
  same after Speak was clicked and the engine reported the start; and two requests, the
  second submitted before any callback of the first.
\<close>

definition hello_idle :: world where
  "hello_idle = run [SetText (js ''hello''), SetPitch 1.5] (mount [v1, v2])"

definition hello_speaking :: world where
  "hello_speaking = run [ClickSpeak, Deliver OnStart 0] hello_idle"

definition superseding :: world where
  "superseding =
     run [SetText (js ''first''), ClickSpeak, SetText (js ''second''), ClickSpeak] (mount [v1, v2])"

text \<open>
  The text "hello" with a selection that names no catalog entry, and with a platform
  that has reported no voice.
\<close>

definition unknown_selected :: world where
  "unknown_selected = run [SelectVoice (js ''zzz'')] hello_idle"

definition no_catalog :: world where
  "no_catalog = run [SetText (js ''hello'')] (mount [])"

section \<open>Auxiliary facts\<close>

lemmas ev = js_def isWhiteSpace_def trim_def v1_def v2_def mount_def initial_def loadVoices_def
  handleSpeak_def handleStop_def setText_def setSelectedVoiceURI_def setPitch_def setRate_def
  voiceschanged_def deliver_def new_utterance_def Let_def hello_idle_def hello_speaking_def
  superseding_def unknown_selected_def no_catalog_def

lemma all_dropWhile: "list_all P (dropWhile P xs) = list_all P xs"
  by (induction xs) simp_all

lemma trim_empty_iff: "trim t = [] \<longleftrightarrow> list_all isWhiteSpace t"
proof -
  have "trim t = [] \<longleftrightarrow> list_all isWhiteSpace (rev (dropWhile isWhiteSpace t))"
    by (simp add: trim_def list_all_iff)
  also have "\<dots> \<longleftrightarrow> list_all isWhiteSpace (dropWhile isWhiteSpace t)"
    by (simp add: list_all_iff)
  finally show ?thesis by (simp add: all_dropWhile)
qed

lemma handleSpeak_noop:
  "list_all isWhiteSpace (text' (app w)) \<or> isSpeaking (app w) \<Longrightarrow> handleSpeak w = w"
  by (simp add: handleSpeak_def Let_def trim_empty_iff)

lemma handleSpeak_submit:
  assumes "\<not> list_all isWhiteSpace (text' (app w))" "\<not> isSpeaking (app w)"
  shows "handleSpeak w =
     w\<lparr>issued := issued w @
        [Cancel,
         Speak \<lparr>u_text = text' (app w),
                u_voice = find (\<lambda>v. voiceURI v = selectedVoiceURI (app w)) (voices (app w)),
                u_pitch = pitch (app w), u_rate = rate (app w),
                onstart = (\<lambda>s. s\<lparr>isSpeaking := True\<rparr>),
                onend = (\<lambda>s. s\<lparr>isSpeaking := False\<rparr>),
                onerror = (\<lambda>s. s\<lparr>isSpeaking := False\<rparr>)\<rparr>]\<rparr>"
  using assms
  by (simp add: handleSpeak_def Let_def trim_empty_iff new_utterance_def split: option.splits)

lemma handleSpeak_cases:
  "handleSpeak w = w \<or>
   (\<exists>u. std_handlers u \<and> handleSpeak w = w\<lparr>issued := issued w @ [Cancel, Speak u]\<rparr>)"
proof (cases "list_all isWhiteSpace (text' (app w)) \<or> isSpeaking (app w)")
  case True
  then show ?thesis by (simp add: handleSpeak_noop)
next
  case False
  then have "\<not> list_all isWhiteSpace (text' (app w))" "\<not> isSpeaking (app w)" by simp_all
  from handleSpeak_submit[OF this] show ?thesis
    by (intro disjI2 exI conjI) (simp_all add: std_handlers_def)
qed

lemma handleSpeak_app: "app (handleSpeak w) = app w"
  using handleSpeak_cases[of w] by auto

lemma submitted_append: "submitted (xs @ ys) = submitted xs @ submitted ys"
  by (induction xs rule: submitted.induct) simp_all

lemma step_std:
  assumes "list_all std_handlers (submitted (issued w))"
  shows "list_all std_handlers (submitted (issued (step a w)))"
proof (cases a)
  case ClickSpeak
  then show ?thesis using assms handleSpeak_cases[of w]
    by (auto simp: submitted_append)
next
  case (VoicesChanged vs)
  then show ?thesis using assms
    by (simp add: voiceschanged_def loadVoices_def Let_def)
next
  case (Deliver cb n)
  then show ?thesis using assms by (simp add: deliver_def)
qed (use assms in \<open>simp_all add: setText_def setSelectedVoiceURI_def setPitch_def setRate_def
      handleStop_def submitted_append\<close>)

lemma run_std:
  "list_all std_handlers (submitted (issued w)) \<Longrightarrow>
   list_all std_handlers (submitted (issued (run as w)))"
  by (induction as arbitrary: w) (simp_all add: step_std)

lemma mount_issued: "issued (mount avail) = []"
  by (simp add: mount_def loadVoices_def initial_def Let_def)

lemma reachable_std: "list_all std_handlers (submitted (issued (run as (mount avail))))"
  by (rule run_std) (simp add: mount_issued)

lemma handler_std: "std_handlers u \<Longrightarrow> handler cb u s = s\<lparr>isSpeaking := (cb = OnStart)\<rparr>"
  by (cases cb) (simp_all add: std_handlers_def)

lemma deliver_std:
  assumes "list_all std_handlers (submitted (issued w))" "n < length (submitted (issued w))"
  shows "deliver cb n w = w\<lparr>app := (app w)\<lparr>isSpeaking := (cb = OnStart)\<rparr>\<rparr>"
  using assms by (simp add: deliver_def handler_std list_all_length)


lemma step_isSpeaking:
  assumes "list_all std_handlers (submitted (issued w))"
    and "\<not> isSpeaking (app w)" and "isSpeaking (app (step a w))"
  shows "\<exists>n. n < length (submitted (issued w)) \<and> a = Deliver OnStart n"
proof (cases a)
  case ClickSpeak
  then show ?thesis using assms by (simp add: handleSpeak_app)
next
  case (VoicesChanged vs)
  then show ?thesis using assms
    by (simp add: voiceschanged_def loadVoices_def Let_def split: if_splits)
next
  case (Deliver cb n)
  show ?thesis
  proof (cases "n < length (submitted (issued w))")
    case True
    with assms Deliver have "cb = OnStart" by (simp add: deliver_std)
    with True Deliver show ?thesis by simp
  next
    case False
    with assms Deliver show ?thesis by (simp add: deliver_def)
  qed
qed (use assms in \<open>simp_all add: setText_def setSelectedVoiceURI_def setPitch_def setRate_def
      handleStop_def\<close>)








section \<open>The guard of speak\<close>

text \<open>
  C1. When the text is empty or consists of white space only, or the playback state is
  already Speaking, \<^verbatim>\<open>handleSpeak\<close> does nothing: the application state (playback
  state, text, catalog, selection, pitch, rate), the commands issued to the host engine
  and the readiness subscription are all as before.
\<close>

theorem speak_guard_noop:
  "list_all isWhiteSpace (text' (app w)) \<or> isSpeaking (app w) \<Longrightarrow> handleSpeak w = w"
  by (rule handleSpeak_noop)

theorem speak_guard_noop_witness:
  "list_all isWhiteSpace (text' (app (run [SetText (js ''   '')] (mount [v1, v2])))) \<and>
   handleSpeak (run [SetText (js ''   '')] (mount [v1, v2])) =
     run [SetText (js ''   '')] (mount [v1, v2]) \<and>
   isSpeaking (app hello_speaking) \<and>
   \<not> list_all isWhiteSpace (text' (app hello_speaking)) \<and>
   handleSpeak hello_speaking = hello_speaking"
proof -
  have a: "list_all isWhiteSpace (text' (app (run [SetText (js ''   '')] (mount [v1, v2]))))"
    by (simp add: ev)
  have b: "isSpeaking (app hello_speaking)"
    by (simp add: ev)
  have c: "\<not> list_all isWhiteSpace (text' (app hello_speaking))"
    by (simp add: ev)
  show ?thesis
    using a b c speak_guard_noop[OF disjI1, OF a] speak_guard_noop[OF disjI2, OF b]
    by simp
qed

section \<open>Submission\<close>

text \<open>
  C2. From Idle, with a text that is not white space only, \<^verbatim>\<open>handleSpeak\<close> issues
  exactly two commands, a cancel and then one speak; the submitted utterance carries the
  current text, the voice the selection resolves to (the first catalog entry with the
  selected \<^verbatim>\<open>voiceURI\<close>, if there is one) and the current pitch and rate.
\<close>

theorem speak_issues_cancel_then_speak:
  assumes "\<not> list_all isWhiteSpace (text' (app w))" and "\<not> isSpeaking (app w)"
  shows "\<exists>u. issued (handleSpeak w) = issued w @ [Cancel, Speak u] \<and>
             u_text u = text' (app w) \<and>
             u_voice u = find (\<lambda>v. voiceURI v = selectedVoiceURI (app w)) (voices (app w)) \<and>
             u_pitch u = pitch (app w) \<and> u_rate u = rate (app w)"
  by (simp add: handleSpeak_submit[OF assms])

theorem speak_issues_cancel_then_speak_witness:
  "\<not> list_all isWhiteSpace (text' (app hello_idle)) \<and> \<not> isSpeaking (app hello_idle) \<and>
   (\<exists>u. issued (handleSpeak hello_idle) = [Cancel, Speak u] \<and>
        u_text u = js ''hello'' \<and> u_voice u = Some v1 \<and> u_pitch u = 1.5 \<and> u_rate u = 1)"
proof -
  have a: "\<not> list_all isWhiteSpace (text' (app hello_idle))" by (simp add: ev)
  have b: "\<not> isSpeaking (app hello_idle)" by (simp add: ev)
  have c: "issued hello_idle = []" "text' (app hello_idle) = js ''hello''"
    "find (\<lambda>v. voiceURI v = selectedVoiceURI (app hello_idle)) (voices (app hello_idle)) = Some v1"
    "pitch (app hello_idle) = 1.5" "rate (app hello_idle) = 1"
    by (simp_all add: ev)
  show ?thesis
    using a b speak_issues_cancel_then_speak[OF a b] unfolding c by simp
qed

text \<open>
  C3. \<^verbatim>\<open>handleSpeak\<close> itself leaves the application state, and so the playback
  state, as it was. In a session, a step takes the playback state from Idle to Speaking
  only if it is the delivery of the start callback of a submitted utterance, and every
  such delivery does set Speaking.
\<close>

theorem speaking_only_on_start:
  assumes "w = run as (mount avail)"
  shows "app (handleSpeak w) = app w \<and>
     (\<not> isSpeaking (app w) \<and> isSpeaking (app (step a w)) \<longrightarrow>
        (\<exists>n. n < length (submitted (issued w)) \<and> a = Deliver OnStart n)) \<and>
     (\<forall>n. n < length (submitted (issued w)) \<longrightarrow> isSpeaking (app (step (Deliver OnStart n) w)))"
proof -
  have std: "list_all std_handlers (submitted (issued w))"
    unfolding assms by (rule reachable_std)
  show ?thesis
    using step_isSpeaking[OF std, of a] by (simp add: handleSpeak_app deliver_std[OF std])
qed

theorem speaking_only_on_start_witness:
  "\<not> isSpeaking (app hello_idle) \<and>
   \<not> isSpeaking (app (handleSpeak hello_idle)) \<and>
   length (submitted (issued (handleSpeak hello_idle))) = 1 \<and>
   isSpeaking (app (step (Deliver OnStart 0) (handleSpeak hello_idle)))"
proof -
  have a: "hello_idle = run [SetText (js ''hello''), SetPitch 1.5] (mount [v1, v2])"
    by (simp add: hello_idle_def)
  have b: "handleSpeak hello_idle =
      run [SetText (js ''hello''), SetPitch 1.5, ClickSpeak] (mount [v1, v2])"
    by (simp add: hello_idle_def)
  have c: "\<not> isSpeaking (app hello_idle)" by (simp add: ev)
  have d: "length (submitted (issued (handleSpeak hello_idle))) = 1" by (simp add: ev)
  show ?thesis
    using c d speaking_only_on_start[OF a] speaking_only_on_start[OF b] by simp
qed

section \<open>Stop\<close>

text \<open>
  C4. While Speaking, \<^verbatim>\<open>handleStop\<close> itself sets the playback state to Idle, with no
  callback involved, and issues exactly one command to the host engine, a cancel.
\<close>

theorem stop_while_speaking:
  "isSpeaking (app w) \<Longrightarrow>
   \<not> isSpeaking (app (handleStop w)) \<and> issued (handleStop w) = issued w @ [Cancel]"
  by (simp add: handleStop_def)

theorem stop_while_speaking_witness:
  "isSpeaking (app hello_speaking) \<and> \<not> isSpeaking (app (handleStop hello_speaking)) \<and>
   issued (handleStop hello_speaking) = issued hello_speaking @ [Cancel]"
proof -
  have a: "isSpeaking (app hello_speaking)" by (simp add: ev)
  show ?thesis using a stop_while_speaking[OF a] by simp
qed

text \<open>
  C5, as the claim has it: while Idle, \<^verbatim>\<open>handleStop\<close> issues no command. It does
  issue one: right after mounting, with nothing ever submitted, a stop sends a cancel.
\<close>

theorem stop_while_idle_counterexample:
  "\<not> isSpeaking (app (mount [v1, v2])) \<and> issued (mount [v1, v2]) = [] \<and>
   issued (handleStop (mount [v1, v2])) = [Cancel]"
  by (simp add: ev)

text \<open>
  C5, amended. While Idle, \<^verbatim>\<open>handleStop\<close> changes no component of the application
  state (playback state, text, catalog, selection, pitch, rate) and issues exactly one
  cancel to the host engine: the cancel is unconditional.
\<close>

theorem stop_while_idle:
  "\<not> isSpeaking (app w) \<Longrightarrow>
   app (handleStop w) = app w \<and> issued (handleStop w) = issued w @ [Cancel] \<and>
   onvoiceschanged (handleStop w) = onvoiceschanged w"
  by (simp add: handleStop_def)

theorem stop_while_idle_witness:
  "\<not> isSpeaking (app hello_idle) \<and> app (handleStop hello_idle) = app hello_idle \<and>
   issued (handleStop hello_idle) = [Cancel]"
proof -
  have a: "\<not> isSpeaking (app hello_idle)" by (simp add: ev)
  have b: "issued hello_idle = []" by (simp add: ev)
  show ?thesis using a stop_while_idle[OF a] by (simp add: b)
qed

section \<open>Callbacks of a superseded request\<close>

text \<open>
  C6, as the claim has it: late callbacks of a superseded request leave the playback
  state alone. They do not. Two requests are submitted, the second before any callback
  of the first. After the start of the second the state is Speaking; a late end or
  error of the first then sets Idle while the second is still playing. And after the
  second has started and ended, a late start of the first sets Speaking again.
\<close>

theorem stale_callbacks_counterexample:
  "u_text (submitted (issued superseding) ! 0) = js ''first'' \<and>
   u_text (submitted (issued superseding) ! 1) = js ''second'' \<and>
   isSpeaking (app (run [Deliver OnStart 1] superseding)) \<and>
   \<not> isSpeaking (app (run [Deliver OnStart 1, Deliver OnEnd 0] superseding)) \<and>
   \<not> isSpeaking (app (run [Deliver OnStart 1, Deliver OnError 0] superseding)) \<and>
   \<not> isSpeaking (app (run [Deliver OnStart 1, Deliver OnEnd 1] superseding)) \<and>
   isSpeaking (app (run [Deliver OnStart 1, Deliver OnEnd 1, Deliver OnStart 0] superseding))"
  by (simp add: ev)

text \<open>
  C6, amended. The handlers carry no tag of their request. In every session, the
  callback of any submitted utterance, superseded or not, sets the playback state to
  Speaking when it is a start and to Idle when it is an end or an error, and changes
  nothing else. What the controller does for a superseding request is to issue a cancel
  to the host engine before the new submission.
\<close>

theorem callbacks_not_matched_to_requests:
  assumes "w = run as (mount avail)"
  shows "(\<forall>n. n < length (submitted (issued w)) \<longrightarrow>
            deliver cb n w = w\<lparr>app := (app w)\<lparr>isSpeaking := (cb = OnStart)\<rparr>\<rparr>) \<and>
         (\<not> list_all isWhiteSpace (text' (app w)) \<and> \<not> isSpeaking (app w) \<longrightarrow>
            (\<exists>u. issued (handleSpeak w) = issued w @ [Cancel, Speak u]))"
proof -
  have std: "list_all std_handlers (submitted (issued w))"
    unfolding assms by (rule reachable_std)
  show ?thesis
    by (auto simp: deliver_std[OF std] handleSpeak_submit)
qed

theorem callbacks_not_matched_to_requests_witness:
  "length (submitted (issued superseding)) = 2 \<and>
   issued superseding =
     [Cancel, Speak (submitted (issued superseding) ! 0),
      Cancel, Speak (submitted (issued superseding) ! 1)] \<and>
   isSpeaking (app (deliver OnStart 0 superseding)) \<and>
   \<not> isSpeaking (app (deliver OnEnd 0 (deliver OnStart 1 superseding)))"
proof -
  have a: "superseding =
      run [SetText (js ''first''), ClickSpeak, SetText (js ''second''), ClickSpeak]
        (mount [v1, v2])"
    by (simp add: superseding_def)
  have b: "deliver OnStart 1 superseding =
      run [SetText (js ''first''), ClickSpeak, SetText (js ''second''), ClickSpeak,
           Deliver OnStart 1] (mount [v1, v2])"
    by (simp add: superseding_def)
  have c: "length (submitted (issued superseding)) = 2" by (simp add: ev)
  have d: "length (submitted (issued (deliver OnStart 1 superseding))) = 2" by (simp add: ev)
  have e: "issued superseding =
     [Cancel, Speak (submitted (issued superseding) ! 0),
      Cancel, Speak (submitted (issued superseding) ! 1)]" by (simp add: ev)
  show ?thesis
    using c d e callbacks_not_matched_to_requests[OF a, of OnStart]
      callbacks_not_matched_to_requests[OF b, of OnEnd]
    by simp
qed

section \<open>The voice catalog\<close>



text \<open>
  C8. For a non-empty platform voice list, \<^verbatim>\<open>loadVoices\<close> publishes the list as
  the catalog and selects the first voice, in platform order, whose language tag is
  en-US; when no voice has that tag it selects the first voice of the list. For the
  catalog of v1 (en-US) and v2 (fr-FR) the selection is "v1".
\<close>

theorem default_selection:
  assumes "avail \<noteq> []"
  shows "voices (app (loadVoices avail w)) = avail \<and>
     ((\<exists>i. i < length avail \<and> lang (avail ! i) = js ''en-US'' \<and>
           (\<forall>j. j < i \<longrightarrow> lang (avail ! j) \<noteq> js ''en-US'') \<and>
           selectedVoiceURI (app (loadVoices avail w)) = voiceURI (avail ! i)) \<or>
      ((\<forall>v \<in> set avail. lang v \<noteq> js ''en-US'') \<and>
       selectedVoiceURI (app (loadVoices avail w)) = voiceURI (hd avail))) \<and>
     selectedVoiceURI (app (loadVoices
        [\<lparr>voiceURI = js ''v1'', name = n1, lang = js ''en-US''\<rparr>,
         \<lparr>voiceURI = js ''v2'', name = n2, lang = js ''fr-FR''\<rparr>] w)) = js ''v1''"
proof (intro conjI)
  show "voices (app (loadVoices avail w)) = avail"
    using assms by (simp add: loadVoices_def Let_def)
  show "(\<exists>i. i < length avail \<and> lang (avail ! i) = js ''en-US'' \<and>
           (\<forall>j. j < i \<longrightarrow> lang (avail ! j) \<noteq> js ''en-US'') \<and>
           selectedVoiceURI (app (loadVoices avail w)) = voiceURI (avail ! i)) \<or>
      ((\<forall>v \<in> set avail. lang v \<noteq> js ''en-US'') \<and>
       selectedVoiceURI (app (loadVoices avail w)) = voiceURI (hd avail))"
  proof (cases "find (\<lambda>v. lang v = js ''en-US'') avail")
    case None
    then have "\<forall>v \<in> set avail. lang v \<noteq> js ''en-US''" by (simp add: find_None_iff)
    moreover from None assms
    have "selectedVoiceURI (app (loadVoices avail w)) = voiceURI (hd avail)"
      by (simp add: loadVoices_def hd_conv_nth)
    ultimately show ?thesis by blast
  next
    case (Some d)
    then obtain i where "i < length avail" "lang (avail ! i) = js ''en-US''" "d = avail ! i"
      "\<forall>j<i. lang (avail ! j) \<noteq> js ''en-US''"
      by (auto simp: find_Some_iff)
    moreover from Some assms
    have "selectedVoiceURI (app (loadVoices avail w)) = voiceURI d"
      by (simp add: loadVoices_def)
    ultimately show ?thesis by blast
  qed
  show "selectedVoiceURI (app (loadVoices
        [\<lparr>voiceURI = js ''v1'', name = n1, lang = js ''en-US''\<rparr>,
         \<lparr>voiceURI = js ''v2'', name = n2, lang = js ''fr-FR''\<rparr>] w)) = js ''v1''"
    by (simp add: loadVoices_def)
qed

theorem default_selection_witness:
  "[v2, v1] \<noteq> [] \<and> voices (app (loadVoices [v2, v1] initial)) = [v2, v1] \<and>
   selectedVoiceURI (app (loadVoices [v2, v1] initial)) = js ''v1'' \<and>
   selectedVoiceURI (app (loadVoices [v2] initial)) = js ''v2'' \<and>
   selectedVoiceURI (app (mount [v1, v2])) = js ''v1''"
proof -
  have a: "[v2, v1] \<noteq> []" by simp
  show ?thesis
    using default_selection[OF a, of initial] by (simp add: ev)
qed

section \<open>Pitch and rate\<close>

text \<open>
  C9, as the claim has it: after the pitch or rate is set, the stored value lies in
  [0.5, 2.0], an out-of-range value being rejected or clamped. The setters do neither:
  2.5 given as pitch is stored as 2.5, and 0.3 given as rate is stored as 0.3.
\<close>

theorem out_of_range_stored_counterexample:
  "pitch (app (setPitch 2.5 hello_idle)) = 2.5 \<and>
   \<not> pitch (app (setPitch 2.5 hello_idle)) \<le> 2 \<and>
   pitch (app (setPitch 2.5 hello_idle)) \<noteq> pitch (app hello_idle) \<and>
   rate (app (setRate 0.3 hello_idle)) = 0.3 \<and>
   \<not> 0.5 \<le> rate (app (setRate 0.3 hello_idle)) \<and>
   rate (app (setRate 0.3 hello_idle)) \<noteq> rate (app hello_idle)"
  by (simp add: ev)

text \<open>
  C9, amended. The pitch-setting and rate-setting operations store the value they are
  given, unchanged and unchecked; the stored value lies in [0.5, 2.0] exactly when the
  given value does.
\<close>

theorem setters_store_as_given:
  "pitch (app (setPitch x w)) = x \<and> rate (app (setRate x w)) = x \<and>
   (0.5 \<le> pitch (app (setPitch x w)) \<and> pitch (app (setPitch x w)) \<le> 2
      \<longleftrightarrow> 0.5 \<le> x \<and> x \<le> 2) \<and>
   (0.5 \<le> rate (app (setRate x w)) \<and> rate (app (setRate x w)) \<le> 2
      \<longleftrightarrow> 0.5 \<le> x \<and> x \<le> 2)"
  by (simp add: setPitch_def setRate_def)

section \<open>An unknown voice selection\<close>

text \<open>
  C10. \<^verbatim>\<open>handleSpeak\<close> does nothing exactly when the text is white space only or
  the playback state is Speaking; the voice selection plays no part in that. From Idle
  with a valid text and a selected identifier that names no catalog entry (an empty
  catalog included), it issues a cancel and then submits the utterance with the text,
  no voice set, and the current pitch and rate.
\<close>

theorem unknown_voice_still_submitted:
  "(handleSpeak w = w \<longleftrightarrow> list_all isWhiteSpace (text' (app w)) \<or> isSpeaking (app w)) \<and>
   (\<not> list_all isWhiteSpace (text' (app w)) \<and> \<not> isSpeaking (app w) \<and>
    selectedVoiceURI (app w) \<notin> set (map voiceURI (voices (app w))) \<longrightarrow>
      (\<exists>u. issued (handleSpeak w) = issued w @ [Cancel, Speak u] \<and>
           u_text u = text' (app w) \<and> u_voice u = None \<and>
           u_pitch u = pitch (app w) \<and> u_rate u = rate (app w)))"
proof (intro conjI impI)
  show "handleSpeak w = w \<longleftrightarrow> list_all isWhiteSpace (text' (app w)) \<or> isSpeaking (app w)"
  proof
    assume same: "handleSpeak w = w"
    show "list_all isWhiteSpace (text' (app w)) \<or> isSpeaking (app w)"
    proof (rule ccontr)
      assume "\<not> (list_all isWhiteSpace (text' (app w)) \<or> isSpeaking (app w))"
      then have "\<not> list_all isWhiteSpace (text' (app w))" "\<not> isSpeaking (app w)" by simp_all
      from handleSpeak_submit[OF this]
      have "length (issued (handleSpeak w)) = length (issued w) + 2" by simp
      with same show False by simp
    qed
  qed (rule handleSpeak_noop)
next
  assume h: "\<not> list_all isWhiteSpace (text' (app w)) \<and> \<not> isSpeaking (app w) \<and>
    selectedVoiceURI (app w) \<notin> set (map voiceURI (voices (app w)))"
  then have "find (\<lambda>v. voiceURI v = selectedVoiceURI (app w)) (voices (app w)) = None"
    by (force simp: find_None_iff)
  moreover from h have "\<not> list_all isWhiteSpace (text' (app w))" "\<not> isSpeaking (app w)"
    by simp_all
  ultimately show "\<exists>u. issued (handleSpeak w) = issued w @ [Cancel, Speak u] \<and>
           u_text u = text' (app w) \<and> u_voice u = None \<and>
           u_pitch u = pitch (app w) \<and> u_rate u = rate (app w)"
    by (simp add: handleSpeak_submit)
qed

theorem unknown_voice_still_submitted_witness:
  "\<not> list_all isWhiteSpace (text' (app unknown_selected)) \<and> \<not> isSpeaking (app unknown_selected) \<and>
   voices (app unknown_selected) = [v1, v2] \<and>
   selectedVoiceURI (app unknown_selected) \<notin> set (map voiceURI (voices (app unknown_selected))) \<and>
   (\<exists>u. issued (handleSpeak unknown_selected) = [Cancel, Speak u] \<and>
        u_text u = js ''hello'' \<and> u_voice u = None \<and> u_pitch u = 1.5 \<and> u_rate u = 1) \<and>
   voices (app no_catalog) = [] \<and>
   (\<exists>u. issued (handleSpeak no_catalog) = [Cancel, Speak u] \<and>
        u_text u = js ''hello'' \<and> u_voice u = None \<and> u_pitch u = 1 \<and> u_rate u = 1)"
proof -
  have a: "\<not> list_all isWhiteSpace (text' (app unknown_selected))"
    "\<not> isSpeaking (app unknown_selected)"
    "selectedVoiceURI (app unknown_selected) \<notin> set (map voiceURI (voices (app unknown_selected)))"
    "voices (app unknown_selected) = [v1, v2]"
    by (simp_all add: ev)
  have b: "issued unknown_selected = []" "text' (app unknown_selected) = js ''hello''"
    "pitch (app unknown_selected) = 1.5" "rate (app unknown_selected) = 1"
    by (simp_all add: ev)
  have c: "\<not> list_all isWhiteSpace (text' (app no_catalog))"
    "\<not> isSpeaking (app no_catalog)"
    "selectedVoiceURI (app no_catalog) \<notin> set (map voiceURI (voices (app no_catalog)))"
    "voices (app no_catalog) = []"
    by (simp_all add: ev)
  have d: "issued no_catalog = []" "text' (app no_catalog) = js ''hello''"
    "pitch (app no_catalog) = 1" "rate (app no_catalog) = 1"
    by (simp_all add: ev)
  have e: "\<exists>u. issued (handleSpeak unknown_selected) = [Cancel, Speak u] \<and>
        u_text u = js ''hello'' \<and> u_voice u = None \<and> u_pitch u = 1.5 \<and> u_rate u = 1"
    using a unknown_voice_still_submitted[of unknown_selected] unfolding b by simp
  have f: "\<exists>u. issued (handleSpeak no_catalog) = [Cancel, Speak u] \<and>
        u_text u = js ''hello'' \<and> u_voice u = None \<and> u_pitch u = 1 \<and> u_rate u = 1"
    using c unknown_voice_still_submitted[of no_catalog] unfolding d by simp
  from a c e f show ?thesis by simp
qed

end
